theory Spec2Isabelle
  imports Main
begin

section \<open>Strings as Python sees them\<close>

text \<open>
  A Python \<open>str\<close> is modelled as a \<open>string\<close> (a list of characters). The newline and
  the double quote are written by their code points.
\<close>

definition NL :: char where
  "NL = CHR 0x0A"

definition DQ :: char where
  "DQ = CHR 0x22"

text \<open>\<open>line.startswith(p)\<close>\<close>

fun startswith :: "string \<Rightarrow> string \<Rightarrow> bool" where
  "startswith s [] = True"
| "startswith [] (p # ps) = False"
| "startswith (c # cs) (p # ps) = (c = p \<and> startswith cs ps)"

text \<open>\<open>sub in s\<close>: the substring test, scanning the start positions from the left.\<close>

fun str_in :: "string \<Rightarrow> string \<Rightarrow> bool" where
  "str_in sub [] = (sub = [])"
| "str_in sub (c # cs) = (startswith (c # cs) sub \<or> str_in sub cs)"

text \<open>
  \<open>str.isspace()\<close>: true when the string is not empty and all its characters are
  whitespace. Below code point 256 Python's whitespace characters are the tab to carriage
  return range, the four separators 0x1C to 0x1F, the space, 0x85 and 0xA0.
\<close>

definition is_whitespace :: "char \<Rightarrow> bool" where
  "is_whitespace c =
     (let n = (of_char c :: nat)
      in (9 \<le> n \<and> n \<le> 13) \<or> (28 \<le> n \<and> n \<le> 32) \<or> n = 133 \<or> n = 160)"

definition isspace :: "string \<Rightarrow> bool" where
  "isspace s = (s \<noteq> [] \<and> list_all is_whitespace s)"

section \<open>The semantic-version library\<close>

text \<open>
  Modelled from the spec: the \<open>semver\<close> package (\<open>parse_version_info\<close>, \<open>str\<close> of a
  version, \<open>bump_patch\<close>) is an external library whose code is not part of the
  repository. The spec's grammar is \<open>major.minor.patch[-prerelease][+build]\<close>; the
  model follows it: three numeric identifiers without leading zeros, an optional
  pre-release tag and an optional build tag, both made of dot-separated identifiers over
  letters, digits and the hyphen.
\<close>

record version_info =
  major :: nat
  minor :: nat
  patch :: nat
  prerelease :: "string option"
  build :: "string option"

definition is_digit :: "char \<Rightarrow> bool" where
  "is_digit c = (let n = (of_char c :: nat) in 48 \<le> n \<and> n \<le> 57)"

definition is_ident_char :: "char \<Rightarrow> bool" where
  "is_ident_char c =
     (let n = (of_char c :: nat)
      in (48 \<le> n \<and> n \<le> 57) \<or> (65 \<le> n \<and> n \<le> 90) \<or> (97 \<le> n \<and> n \<le> 122) \<or> n = 45)"

definition digit_val :: "char \<Rightarrow> nat" where
  "digit_val c = of_char c - 48"

definition digit_char :: "nat \<Rightarrow> char" where
  "digit_char n = char_of (48 + n)"

text \<open>A numeric identifier: digits, not empty, no leading zero unless it is \<open>0\<close>.\<close>

definition numeric_identifier :: "string \<Rightarrow> bool" where
  "numeric_identifier ds =
     (case ds of
        [] \<Rightarrow> False
      | d # rest \<Rightarrow> list_all is_digit ds \<and> (d = CHR ''0'' \<longrightarrow> rest = []))"

definition prerelease_identifier :: "string \<Rightarrow> bool" where
  "prerelease_identifier s =
     (s \<noteq> [] \<and> list_all is_ident_char s \<and> (list_all is_digit s \<longrightarrow> numeric_identifier s))"

definition build_identifier :: "string \<Rightarrow> bool" where
  "build_identifier s = (s \<noteq> [] \<and> list_all is_ident_char s)"

text \<open>\<open>int(ds)\<close> on a string of decimal digits, and \<open>"%d" % n\<close>.\<close>

definition read_nat :: "string \<Rightarrow> nat" where
  "read_nat ds = foldl (\<lambda>a c. 10 * a + digit_val c) 0 ds"

fun show_nat :: "nat \<Rightarrow> string" where
  "show_nat n =
     (if n < 10 then [digit_char n] else show_nat (n div 10) @ [digit_char (n mod 10)])"

declare show_nat.simps [simp del]

text \<open>Cutting a string at the first occurrence of a separator.\<close>

fun split_first :: "char \<Rightarrow> string \<Rightarrow> string \<times> string option" where
  "split_first sep [] = ([], None)"
| "split_first sep (c # cs) =
     (if c = sep then ([], Some cs)
      else (case split_first sep cs of (a, b) \<Rightarrow> (c # a, b)))"

text \<open>\<open>s.split(sep)\<close>: all the fields between separators; one empty field for \<open>""\<close>.\<close>

fun split_on :: "char \<Rightarrow> string \<Rightarrow> string list" where
  "split_on sep [] = [[]]"
| "split_on sep (c # cs) =
     (if c = sep then [] # split_on sep cs
      else (case split_on sep cs of
              [] \<Rightarrow> [[c]]
            | f # fs \<Rightarrow> (c # f) # fs))"

definition valid_tag :: "(string \<Rightarrow> bool) \<Rightarrow> string option \<Rightarrow> bool" where
  "valid_tag ident t =
     (case t of None \<Rightarrow> True | Some s \<Rightarrow> list_all ident (split_on (CHR ''.'') s))"

text \<open>
  Modelled from the spec: \<open>semver.parse_version_info\<close>. The build tag starts at the first
  \<open>+\<close>, the pre-release tag at the first \<open>-\<close> before it, and what is left must be three
  numeric identifiers separated by dots. \<open>None\<close> stands for the library's exception on a
  malformed string.
\<close>

definition parse_version_info :: "string \<Rightarrow> version_info option" where
  "parse_version_info s =
     (case split_first (CHR ''+'') s of (rest, bld) \<Rightarrow>
      case split_first (CHR ''-'') rest of (core, pre) \<Rightarrow>
      case split_on (CHR ''.'') core of
        [ma, mi, pa] \<Rightarrow>
          if numeric_identifier ma \<and> numeric_identifier mi \<and> numeric_identifier pa
             \<and> valid_tag prerelease_identifier pre \<and> valid_tag build_identifier bld
          then Some \<lparr>major = read_nat ma, minor = read_nat mi, patch = read_nat pa,
                     prerelease = pre, build = bld\<rparr>
          else None
      | _ \<Rightarrow> None)"

text \<open>Modelled from the spec: \<open>str(version_info)\<close>, the canonical rendering.\<close>

definition format_version :: "version_info \<Rightarrow> string" where
  "format_version v =
     show_nat (major v) @ ''.'' @ show_nat (minor v) @ ''.'' @ show_nat (patch v)
     @ (case prerelease v of None \<Rightarrow> [] | Some p \<Rightarrow> CHR ''-'' # p)
     @ (case build v of None \<Rightarrow> [] | Some b \<Rightarrow> CHR ''+'' # b)"

section \<open>Errors\<close>

text \<open>
  Every exception the tasks can raise is a value. \<open>SystemExit\<close> carries the argument of
  \<open>exit\<close>; \<open>exit()\<close> without an argument carries \<open>None\<close>.
\<close>

datatype error =
    InvalidVersionError
  | ValueError
  | IndexError
  | FileNotFoundError string
  | UnexpectedExit int
  | SystemExit "int option"

text \<open>
  The status the process ends with when a \<open>SystemExit\<close> reaches the top: 0 for
  \<open>exit()\<close>, and the low eight bits of the code otherwise.
\<close>

fun exit_status :: "int option \<Rightarrow> int" where
  "exit_status None = 0"
| "exit_status (Some n) = n mod 256"

section \<open>Version normalisation\<close>

definition normalize_version :: "string \<Rightarrow> error + string" where
  "normalize_version version =
     (case parse_version_info version of
        None \<Rightarrow> Inl InvalidVersionError
      | Some version_info \<Rightarrow> Inr (format_version version_info))"

text \<open>
  Modelled from the spec: \<open>semver.bump_patch\<close>, which the repository calls and does not
  define: the patch number goes up by one, the pre-release and build tags are dropped.
\<close>

definition bump_patch :: "string \<Rightarrow> error + string" where
  "bump_patch version =
     (case parse_version_info version of
        None \<Rightarrow> Inl InvalidVersionError
      | Some v \<Rightarrow> Inr (format_version (v\<lparr>patch := patch v + 1, prerelease := None, build := None\<rparr>)))"

section \<open>The world the tasks act on\<close>

text \<open>
  What the tasks can observe and change: the text files (by absolute path, each with its
  content as text mode presents it, every line end a newline), the working directory of
  the process, and the ordered trace of everything that reaches the operator or leaves
  the process: console output, external commands, the editing session.
\<close>

datatype event =
    Print string
  | PrintColored string string
  | Exec string string
  | Mirror string string
  | Edit string

record cmd_result =
  exited :: int
  stdout :: string
  stderr :: string

record world =
  files :: "string \<Rightarrow> string option"
  cwd :: string
  trace :: "event list"

text \<open>
  The surroundings of the program. \<open>HERE\<close> is \<open>Path(__file__).parent\<close>, the absolute
  directory of the tasks file. \<open>shell\<close> is what an external command does when it is run
  in a world: its result and the files it leaves behind (a child process cannot change the
  working directory of its parent). \<open>editor\<close> is the editing session: the content of the
  temporary file when the editor exits, from the content it was seeded with. \<open>which\<close>
  tells whether an executable is found on the search path.
\<close>

record env =
  HERE :: string
  shell :: "string \<Rightarrow> world \<Rightarrow> cmd_result \<times> (string \<Rightarrow> string option)"
  editor :: "string \<Rightarrow> string"
  which :: "string \<Rightarrow> bool"

type_synonym 'a action = "world \<Rightarrow> (error + 'a) \<times> world"

definition done_with :: "'a \<Rightarrow> 'a action" where
  "done_with a w = (Inr a, w)"

definition lift :: "error + 'a \<Rightarrow> 'a action" where
  "lift r w = (r, w)"

definition and_then :: "'a action \<Rightarrow> ('a \<Rightarrow> 'b action) \<Rightarrow> 'b action" where
  "and_then m f w =
     (case m w of
        (Inl e, w') \<Rightarrow> (Inl e, w')
      | (Inr a, w') \<Rightarrow> f a w')"

text \<open>Statements one after the other; the first exception stops the sequence.\<close>

fun seq :: "unit action list \<Rightarrow> unit action" where
  "seq [] = done_with ()"
| "seq (m # ms) = and_then m (\<lambda>_. seq ms)"

text \<open>\<open>try: body finally: cleanup\<close>: the cleanup runs whatever the body did.\<close>

definition try_finally :: "'a action \<Rightarrow> unit action \<Rightarrow> 'a action" where
  "try_finally body cleanup w =
     (case body w of (r, w') \<Rightarrow>
        (case cleanup w' of
           (Inl e, w'') \<Rightarrow> (Inl e, w'')
         | (Inr _, w'') \<Rightarrow> (r, w'')))"

definition path_join :: "string \<Rightarrow> string \<Rightarrow> string" where
  "path_join dir name = dir @ ''/'' @ name"

definition DASH_BOOTSTRAP_DIR :: "env \<Rightarrow> string" where
  "DASH_BOOTSTRAP_DIR e = path_join (HERE e) ''dash_bootstrap_components''"

definition JS_DIR :: "env \<Rightarrow> string" where
  "JS_DIR e = HERE e"

definition VERSION_TEMPLATE :: "string \<Rightarrow> string" where
  "VERSION_TEMPLATE version_string = ''__version__ = '' @ [DQ] @ version_string @ [DQ, NL]"

definition TEST_VERSION_TEMPLATE :: "string \<Rightarrow> string" where
  "TEST_VERSION_TEMPLATE version_string =
     ''from dash_bootstrap_components import __version__'' @ [NL, NL, NL]
     @ ''def test_version():'' @ [NL]
     @ ''    assert __version__ == '' @ [DQ] @ version_string @ [DQ, NL]"

definition RELEASE_NOTES_TEMPLATE :: "string \<Rightarrow> string \<Rightarrow> string" where
  "RELEASE_NOTES_TEMPLATE version_string underline =
     ''# Write the release notes here'' @ [NL]
     @ ''# Delete the version title to cancel'' @ [NL]
     @ ''Version '' @ version_string @ [NL]
     @ underline @ [NL]"

subsection \<open>Console, process and files\<close>

definition emit :: "event \<Rightarrow> unit action" where
  "emit ev w = (Inr (), w\<lparr>trace := trace w @ [ev]\<rparr>)"

definition error :: "string \<Rightarrow> unit action" where
  "error text = emit (PrintColored text ''red'')"

definition info :: "string \<Rightarrow> unit action" where
  "info text = emit (Print text)"

definition exit :: "int option \<Rightarrow> 'a action" where
  "exit code w = (Inl (SystemExit code), w)"

definition chdir :: "string \<Rightarrow> unit action" where
  "chdir dir w = (Inr (), w\<lparr>cwd := dir\<rparr>)"

text \<open>\<open>f.readlines()\<close>: the content cut after each newline, the newlines kept.\<close>

primrec readlines :: "string \<Rightarrow> string list" where
  "readlines [] = []"
| "readlines (c # cs) =
     (if c = NL then [c] # readlines cs
      else (case readlines cs of
              [] \<Rightarrow> [[c]]
            | l # ls \<Rightarrow> (c # l) # ls))"

definition read_lines :: "string \<Rightarrow> string list action" where
  "read_lines path w =
     (case files w path of
        None \<Rightarrow> (Inl (FileNotFoundError path), w)
      | Some content \<Rightarrow> (Inr (readlines content), w))"

text \<open>Opening for writing and \<open>f.writelines(lines)\<close>: the file holds the lines, joined.\<close>

definition write_lines :: "string \<Rightarrow> string list \<Rightarrow> unit action" where
  "write_lines path lines w = (Inr (), w\<lparr>files := (files w)(path \<mapsto> concat lines)\<rparr>)"

definition write_text :: "string \<Rightarrow> string \<Rightarrow> unit action" where
  "write_text path text w = (Inr (), w\<lparr>files := (files w)(path \<mapsto> text)\<rparr>)"

text \<open>\<open>xs.index(x)\<close>: the first position of \<open>x\<close>, or \<open>ValueError\<close>.\<close>

fun list_index :: "'a list \<Rightarrow> 'a \<Rightarrow> error + nat" where
  "list_index [] x = Inl ValueError"
| "list_index (y # ys) x =
     (if y = x then Inr 0
      else (case list_index ys x of Inl err \<Rightarrow> Inl err | Inr i \<Rightarrow> Inr (Suc i)))"

text \<open>\<open>xs[-1]\<close>\<close>

definition last_item :: "'a list \<Rightarrow> error + 'a" where
  "last_item xs = (if xs = [] then Inl IndexError else Inr (last xs))"

subsection \<open>Running external commands\<close>

text \<open>
  \<open>invoke.run(command, hide, warn)\<close>: the command runs in the current directory; its
  output is mirrored on the console unless hidden; a non-zero exit raises unless \<open>warn\<close>.
\<close>

definition invoke_run :: "env \<Rightarrow> string \<Rightarrow> bool \<Rightarrow> bool \<Rightarrow> cmd_result action" where
  "invoke_run e command hide warn w =
     (case shell e command w of (result, fs) \<Rightarrow>
        (if exited result \<noteq> 0 \<and> \<not> warn then Inl (UnexpectedExit (exited result))
         else Inr result,
         w\<lparr>files := fs,
           trace := trace w @ [Exec command (cwd w)]
                    @ (if hide then [] else [Mirror (stdout result) (stderr result)])\<rparr>))"

definition run :: "env \<Rightarrow> string \<Rightarrow> unit action" where
  "run e command =
     and_then (invoke_run e command True True) (\<lambda>result.
       if exited result \<noteq> 0
       then seq [error (''Error running '' @ command),
                 info (stdout result),
                 info [],
                 info (stderr result),
                 exit (Some (exited result))]
       else done_with ())"

subsection \<open>Writing the version into the metadata files\<close>

definition init_path :: "env \<Rightarrow> string" where
  "init_path e = path_join (DASH_BOOTSTRAP_DIR e) ''__init__.py''"

definition test_version_path :: "env \<Rightarrow> string" where
  "test_version_path e = path_join (path_join (HERE e) ''tests'') ''test_version.py''"

definition package_json_path :: "env \<Rightarrow> string" where
  "package_json_path e = path_join (HERE e) ''package.json''"

definition docs_requirements_path :: "env \<Rightarrow> string" where
  "docs_requirements_path e = path_join (path_join (HERE e) ''docs'') ''requirements.txt''"

definition py_marker :: "string \<Rightarrow> bool" where
  "py_marker line = startswith line ''__version__ = ''"

definition js_marker :: "string \<Rightarrow> bool" where
  "js_marker line = str_in ([DQ] @ ''version'' @ [DQ]) line"

definition docs_marker :: "string \<Rightarrow> bool" where
  "docs_marker line = str_in ''dash_bootstrap_components'' line"

definition js_line :: "string \<Rightarrow> string" where
  "js_line version = ''  '' @ [DQ] @ ''version'' @ [DQ] @ '': '' @ [DQ] @ version @ [DQ] @ '','' @ [NL]"

definition docs_line :: "string \<Rightarrow> string" where
  "docs_line version = ''dash_bootstrap_components=='' @ version @ [NL]"

definition set_pyversion :: "env \<Rightarrow> string \<Rightarrow> unit action" where
  "set_pyversion e version =
     and_then (lift (normalize_version version)) (\<lambda>version.
     and_then (read_lines (init_path e)) (\<lambda>lines.
     and_then (lift (list_index (map py_marker lines) True)) (\<lambda>index.
       seq [write_lines (init_path e) (lines[index := VERSION_TEMPLATE version]),
            write_text (test_version_path e) (TEST_VERSION_TEMPLATE version)])))"

text \<open>
  The loop \<open>for iline, line in enumerate(lines): if marker(line): lines[iline] = new\<close>,
  from position \<open>iline\<close> on, on the list it updates in place.
\<close>

function replace_marked :: "(string \<Rightarrow> bool) \<Rightarrow> string \<Rightarrow> nat \<Rightarrow> string list \<Rightarrow> string list" where
  "replace_marked marker new iline lines =
     (if iline < length lines
      then replace_marked marker new (Suc iline)
             (if marker (lines ! iline) then lines[iline := new] else lines)
      else lines)"
  by pat_completeness auto
termination
  by (relation "measure (\<lambda>(marker, new, iline, lines). length lines - iline)") auto

declare replace_marked.simps [simp del]

definition set_jsversion :: "env \<Rightarrow> string \<Rightarrow> unit action" where
  "set_jsversion e version =
     and_then (lift (normalize_version version)) (\<lambda>version.
     and_then (read_lines (package_json_path e)) (\<lambda>package_json.
       write_lines (package_json_path e)
         (replace_marked js_marker (js_line version) 0 package_json)))"

definition set_documentation_version :: "env \<Rightarrow> string \<Rightarrow> unit action" where
  "set_documentation_version e version =
     and_then (lift (normalize_version version)) (\<lambda>version.
     and_then (read_lines (docs_requirements_path e)) (\<lambda>docs_requirements.
       write_lines (docs_requirements_path e)
         (replace_marked docs_marker (docs_line version) 0 docs_requirements)))"

subsection \<open>Release notes\<close>

definition open_editor :: "env \<Rightarrow> string \<Rightarrow> string list action" where
  "open_editor e initial_message w =
     (Inr (readlines (editor e initial_message)), w\<lparr>trace := trace w @ [Edit initial_message]\<rparr>)"

definition non_commented :: "string list \<Rightarrow> string list" where
  "non_commented lines = filter (\<lambda>line. \<not> startswith line ''#'') lines"

definition initial_message :: "string \<Rightarrow> string" where
  "initial_message version =
     RELEASE_NOTES_TEMPLATE version (replicate (length (''Version '' @ version)) (CHR ''=''))"

definition get_release_notes :: "env \<Rightarrow> string \<Rightarrow> string list option action" where
  "get_release_notes e version =
     and_then (lift (normalize_version version)) (\<lambda>version.
     and_then (open_editor e (initial_message version)) (\<lambda>lines.
       let non_commented_lines = non_commented lines;
           changelog = concat non_commented_lines
       in if str_in version changelog
          then and_then (lift (last_item non_commented_lines)) (\<lambda>final.
                 if \<not> isspace final
                 then done_with (Some (non_commented_lines @ [[NL]]))
                 else done_with (Some non_commented_lines))
          else done_with None))"

subsection \<open>Building and publishing\<close>

fun check_prerequisites_from :: "env \<Rightarrow> string list \<Rightarrow> unit action" where
  "check_prerequisites_from e [] = done_with ()"
| "check_prerequisites_from e (executable # rest) =
     (if \<not> which e executable
      then seq [error (executable @ '' executable not found. ''
                       @ ''You must have '' @ executable @ '' to release ''
                       @ ''dash-bootstrap-components.''),
                exit (Some 127)]
      else check_prerequisites_from e rest)"

definition check_prerequisites :: "env \<Rightarrow> unit action" where
  "check_prerequisites e =
     check_prerequisites_from e [''twine'', ''npm'', ''dash-generate-components'']"

definition clean :: "env \<Rightarrow> unit action" where
  "clean e =
     seq (map (\<lambda>path. run e (''rm -rf '' @ path))
            [''dash_bootstrap_components/_components'', ''dist/'', ''lib/''])"

definition build_js :: "env \<Rightarrow> unit action" where
  "build_js e =
     and_then (chdir (JS_DIR e)) (\<lambda>_.
       try_finally (seq [run e ''npm install'', run e ''npm publish'']) (chdir (HERE e)))"

definition release_python_sdist :: "env \<Rightarrow> unit action" where
  "release_python_sdist e =
     seq [run e ''rm -f dist/*'',
          run e ''python setup.py sdist'',
          and_then (invoke_run e ''twine upload dist/*'' False False) (\<lambda>_. done_with ())]"

definition build_publish :: "env \<Rightarrow> string \<Rightarrow> unit action" where
  "build_publish e version =
     seq [info ''Cleaning'',
          clean e,
          info ''Updating versions'',
          set_pyversion e version,
          set_jsversion e version,
          info ''Building JavaScript components'',
          build_js e,
          info ''Building and uploading Python source distribution'',
          info ''PyPI credentials:'',
          release_python_sdist e]"

subsection \<open>The workflows\<close>

definition prerelease :: "env \<Rightarrow> string \<Rightarrow> unit action" where
  "prerelease e version =
     seq [check_prerequisites e,
          info (''Releasing version '' @ version @ '' as prerelease''),
          build_publish e version]"

text \<open>
  \<open>exit()\<close> raises, so what follows the test of \<open>release_notes_lines\<close> runs only when
  there are notes.
\<close>

definition release :: "env \<Rightarrow> string \<Rightarrow> unit action" where
  "release e version =
     and_then (seq [check_prerequisites e,
                    info (''Releasing version '' @ version @ '' as full release''),
                    set_documentation_version e version]) (\<lambda>_.
     and_then (get_release_notes e version) (\<lambda>release_notes_lines.
       case release_notes_lines of
         None \<Rightarrow> seq [error ''No release notes: exiting'', exit None]
       | Some notes \<Rightarrow>
           seq [info ''Writing release notes to changelog.tmp'',
                (\<lambda>w. write_lines (path_join (cwd w) ''changelog.tmp'') notes w),
                build_publish e version,
                info ''Committing version changes'',
                run e (''git checkout -b release-'' @ version),
                run e (''git add package.json package-lock.json ''
                       @ ''docs/requirements.txt ''
                       @ ''dash_bootstrap_components/_version.py''),
                run e (''git commit -m '' @ [DQ] @ ''Bump version to '' @ version @ [DQ]),
                info (''Tagging version '' @ version @ '' and pushing to GitHub''),
                run e (''git tag -a '' @ [DQ] @ version @ [DQ] @ '' -F changelog.tmp''),
                run e (''git push origin release-'' @ version @ '' --tags'')]))"

definition copy_examples :: "env \<Rightarrow> unit action" where
  "copy_examples e =
     seq [info ''copying examples into docs directory'',
          run e ''cp examples/gallery/iris-kmeans/app.py docs/examples/vendor/iris.py'',
          run e (''cp examples/advanced-component-usage/graphs_in_tabs.py ''
                 @ ''docs/examples/vendor/graphs_in_tabs.py''),
          run e (''cp examples/multi-page-apps/simple_sidebar.py ''
                 @ ''docs/examples/vendor/simple_sidebar.py'')]"

definition documentation :: "env \<Rightarrow> unit action" where
  "documentation e =
     seq [info ''Pushing documentation to Heroku'',
          run e ''git checkout -b inv-push-docs'',
          run e ''git add docs/examples/vendor/*.py -f'',
          run e (''git commit -m '' @ [DQ] @ ''Add examples'' @ [DQ] @ '' --allow-empty''),
          run e ''git subtree split --prefix docs -b inv-push-docs-subtree'',
          run e ''git push -f heroku inv-push-docs-subtree:master'',
          run e ''git checkout master'',
          run e ''git branch -D inv-push-docs inv-push-docs-subtree'']"

text \<open>
  The body of the \<open>postrelease\<close> task. The task runner runs \<open>copy_examples\<close> and
  \<open>documentation\<close> before it, as the decorators ask.
\<close>

definition postrelease :: "env \<Rightarrow> string \<Rightarrow> unit action" where
  "postrelease e version =
     and_then (lift (bump_patch version)) (\<lambda>bumped.
       let new_version = bumped @ ''-dev''
       in seq [info (''Bumping version numbers to '' @ new_version @ '' and committing''),
               set_pyversion e new_version,
               set_jsversion e new_version,
               run e (''git checkout -b postrelease-'' @ version),
               run e (''git add package.json package-lock.json ''
                      @ ''dash_bootstrap_components/_version.py''),
               run e (''git commit -m '' @ [DQ] @ ''Back to dev'' @ [DQ]),
               run e (''git push origin postrelease-'' @ version)])"

section \<open>Lines of a text file\<close>

text \<open>
  A complete line ends with its only newline. The lines of a file are complete, except
  that the last one may lack the newline.
\<close>

definition complete_line :: "string \<Rightarrow> bool" where
  "complete_line l = (l \<noteq> [] \<and> last l = NL \<and> NL \<notin> set (butlast l))"


section \<open>Concrete surroundings\<close>

text \<open>
  A small project tree, a shell whose commands all succeed, one whose commands all fail,
  an editor that saves the template as it is and one that saves an empty file.
\<close>

definition env0 :: env where
  "env0 = \<lparr>HERE = ''/repo'',
           shell = (\<lambda>command w. (\<lparr>exited = 0, stdout = [], stderr = []\<rparr>, files w)),
           editor = (\<lambda>content. content),
           which = (\<lambda>executable. True)\<rparr>"

definition env_failing :: env where
  "env_failing = \<lparr>HERE = ''/repo'',
           shell = (\<lambda>command w. (\<lparr>exited = 2, stdout = ''out'', stderr = ''err''\<rparr>, files w)),
           editor = (\<lambda>content. []),
           which = (\<lambda>executable. True)\<rparr>"

definition init0 :: string where
  "init0 = ''__version__ = '' @ [DQ] @ ''1.1.0'' @ [DQ, NL] @ ''x = 1'' @ [NL]"

definition package_json0 :: string where
  "package_json0 = ''{'' @ [NL, DQ] @ ''version'' @ [DQ] @ '': 1,'' @ [NL] @ ''}''"

definition requirements0 :: string where
  "requirements0 = ''dash'' @ [NL] @ ''dash_bootstrap_components==1.1.0'' @ [NL]"

definition files1 :: "string \<Rightarrow> string option" where
  "files1 = [''/repo/dash_bootstrap_components/__init__.py'' \<mapsto> init0,
             ''/repo/package.json'' \<mapsto> package_json0,
             ''/repo/docs/requirements.txt'' \<mapsto> requirements0]"

definition world1 :: world where
  "world1 = \<lparr>files = files1, cwd = ''/repo/docs'', trace = []\<rparr>"



section \<open>Properties of the version library model\<close>

lemma split_first_None: "split_first c s = (a, None) \<Longrightarrow> s = a \<and> c \<notin> set s"
  by (induction s arbitrary: a) (auto split: if_splits prod.splits)

lemma split_first_Some: "split_first c s = (a, Some b) \<Longrightarrow> s = a @ c # b \<and> c \<notin> set a"
  by (induction s arbitrary: a) (auto split: if_splits prod.splits)

lemma split_first_absent: "c \<notin> set s \<Longrightarrow> split_first c s = (s, None)"
  by (induction s) auto

lemma split_first_present: "c \<notin> set a \<Longrightarrow> split_first c (a @ c # b) = (a, Some b)"
  by (induction a) auto

lemma split_on_not_Nil: "split_on c s \<noteq> []"
  by (induction s) (auto split: list.splits)

lemma split_on_single: "split_on c s = [f] \<Longrightarrow> s = f"
  by (induction s arbitrary: f) (auto split: if_splits list.splits simp: split_on_not_Nil)

lemma split_on_more: "split_on c s = f # g # fs \<Longrightarrow> \<exists>s'. s = f @ c # s' \<and> split_on c s' = g # fs"
  by (induction s arbitrary: f) (auto split: if_splits list.splits)

lemma split_on_three:
  assumes "split_on c s = [x, y, z]"
  shows "s = x @ c # y @ c # z"
proof -
  from split_on_more[OF assms] obtain s' where 1: "s = x @ c # s'" and 2: "split_on c s' = [y, z]"
    by blast
  from split_on_more[OF 2] obtain s'' where 3: "s' = y @ c # s''" and 4: "split_on c s'' = [z]"
    by blast
  from split_on_single[OF 4] 1 3 show ?thesis by simp
qed

lemma split_on_absent: "c \<notin> set f \<Longrightarrow> split_on c f = [f]"
  by (induction f) auto

lemma split_on_present: "c \<notin> set f \<Longrightarrow> split_on c (f @ c # s) = f # split_on c s"
  by (induction f) (auto simp: split_on_not_Nil split: list.splits)

lemma char_of_48: "char_of (48::nat) = CHR ''0''"
  by code_simp

lemma digit_char_zero: "n < 10 \<Longrightarrow> digit_char n = CHR ''0'' \<Longrightarrow> n = 0"
proof -
  assume n: "n < 10" and e: "digit_char n = CHR ''0''"
  from e have "(of_char (digit_char n) :: nat) = of_char (CHR ''0'')" by simp
  with n show ?thesis by (simp add: digit_char_def)
qed

lemma digit_char_val: "is_digit c \<Longrightarrow> digit_char (digit_val c) = c"
  by (simp add: is_digit_def digit_char_def digit_val_def Let_def)

lemma digit_val_lt: "is_digit c \<Longrightarrow> digit_val c < 10"
  by (auto simp add: is_digit_def digit_val_def Let_def)

lemma digit_val_char: "n < 10 \<Longrightarrow> digit_val (digit_char n) = n"
  by (simp add: digit_char_def digit_val_def)

lemma is_digit_digit_char: "n < 10 \<Longrightarrow> is_digit (digit_char n)"
  by (simp add: digit_char_def is_digit_def Let_def)

lemma digit_val_zero: "is_digit c \<Longrightarrow> digit_val c = 0 \<Longrightarrow> c = CHR ''0''"
  using digit_char_val[of c] by (simp add: digit_char_def char_of_48)

lemma read_nat_snoc: "read_nat (ds @ [d]) = 10 * read_nat ds + digit_val d"
  by (simp add: read_nat_def)

lemma show_nat_step: "v < 10 \<Longrightarrow> 0 < m \<Longrightarrow> show_nat (10 * m + v) = show_nat m @ [digit_char v]"
  by (subst show_nat.simps) simp

lemma show_nat_digit: "v < 10 \<Longrightarrow> show_nat v = [digit_char v]"
  by (subst show_nat.simps) simp

lemma read_nat_pos: "list_all is_digit ds \<Longrightarrow> ds \<noteq> [] \<Longrightarrow> hd ds \<noteq> CHR ''0'' \<Longrightarrow> 0 < read_nat ds"
proof (induction ds rule: rev_induct)
  case Nil then show ?case by simp
next
  case (snoc d ds)
  show ?case
  proof (cases ds)
    case Nil
    with snoc.prems digit_val_zero[of d] show ?thesis by (auto simp: read_nat_def)
  next
    case (Cons a as)
    with snoc have "0 < read_nat ds" by simp
    then show ?thesis by (simp add: read_nat_snoc)
  qed
qed

lemma show_read_nonzero: "list_all is_digit ds \<Longrightarrow> ds \<noteq> [] \<Longrightarrow> hd ds \<noteq> CHR ''0'' \<Longrightarrow> show_nat (read_nat ds) = ds"
proof (induction ds rule: rev_induct)
  case Nil then show ?case by simp
next
  case (snoc d ds)
  then have d: "is_digit d" by simp
  show ?case
  proof (cases ds)
    case Nil
    with d show ?thesis by (simp add: read_nat_def show_nat_digit digit_val_lt digit_char_val)
  next
    case (Cons a as)
    with snoc have ih: "show_nat (read_nat ds) = ds" and pos: "0 < read_nat ds"
      using read_nat_pos[of ds] by simp_all
    show ?thesis using d ih pos
      by (simp add: read_nat_snoc show_nat_step digit_val_lt digit_char_val)
  qed
qed

lemma show_read_nat: "numeric_identifier ds \<Longrightarrow> show_nat (read_nat ds) = ds"
proof (cases ds)
  case Nil then show "numeric_identifier ds \<Longrightarrow> ?thesis" by (simp add: numeric_identifier_def)
next
  case (Cons d rest)
  assume n: "numeric_identifier ds"
  show ?thesis
  proof (cases "d = CHR ''0''")
    case True
    with n Cons have "ds = ''0''" by (simp add: numeric_identifier_def)
    then show ?thesis by (simp add: read_nat_def digit_val_def show_nat_digit digit_char_def char_of_48)
  next
    case False
    with n Cons show ?thesis by (intro show_read_nonzero) (simp_all add: numeric_identifier_def)
  qed
qed

lemma format_parse: "parse_version_info s = Some v \<Longrightarrow> format_version v = s"
  unfolding parse_version_info_def format_version_def
  by (auto split: prod.splits list.splits if_splits option.splits
      dest!: split_first_None split_first_Some split_on_three simp: show_read_nat)

lemma show_nat_digits: "list_all is_digit (show_nat n)"
  by (induction n rule: show_nat.induct) (subst show_nat.simps, simp add: is_digit_digit_char)

lemma show_nat_not_Nil: "show_nat n \<noteq> []"
  by (subst show_nat.simps) simp

lemma read_show_nat: "read_nat (show_nat n) = n"
proof (induction n rule: show_nat.induct)
  case (1 n)
  show ?case
  proof (cases "n < 10")
    case True
    then show ?thesis by (simp add: show_nat_digit read_nat_def digit_val_char)
  next
    case False
    then have "show_nat n = show_nat (n div 10) @ [digit_char (n mod 10)]"
      by (subst show_nat.simps) simp
    with 1 False show ?thesis by (simp add: read_nat_snoc digit_val_char)
  qed
qed

lemma hd_show_nat: "0 < n \<Longrightarrow> hd (show_nat n) \<noteq> CHR ''0''"
proof (induction n rule: show_nat.induct)
  case (1 n)
  show ?case
  proof (cases "n < 10")
    case True
    with 1(2) show ?thesis using digit_char_zero[of n] by (auto simp add: show_nat_digit)
  next
    case False
    then have "show_nat n = show_nat (n div 10) @ [digit_char (n mod 10)]"
      by (subst show_nat.simps) simp
    moreover from False have "0 < n div 10" by simp
    ultimately show ?thesis using 1(1) False show_nat_not_Nil[of "n div 10"] by simp
  qed
qed

lemma numeric_show_nat: "numeric_identifier (show_nat n)"
proof (cases "n = 0")
  case True
  then show ?thesis by (simp add: show_nat_digit numeric_identifier_def digit_char_def is_digit_def)
next
  case False
  then have "hd (show_nat n) \<noteq> CHR ''0''" using hd_show_nat by simp
  then show ?thesis using show_nat_digits[of n] show_nat_not_Nil[of n]
    by (cases "show_nat n") (auto simp: numeric_identifier_def)
qed

section \<open>Properties of lines and of the marker loop\<close>


lemma readlines_not_Nil: "s \<noteq> [] \<Longrightarrow> readlines s \<noteq> []"
  by (cases s) (auto split: list.splits)







lemma complete_line_wf_last: "complete_line l \<Longrightarrow> l \<noteq> [] \<and> NL \<notin> set (butlast l)"
  by (simp add: complete_line_def)


lemma replace_marked_from:
  "replace_marked marker new i ls = take i ls @ map (\<lambda>l. if marker l then new else l) (drop i ls)"
proof (induction marker new i ls rule: replace_marked.induct)
  case (1 marker new iline lines)
  show ?case
  proof (cases "iline < length lines")
    case False
    then show ?thesis by (subst replace_marked.simps) simp
  next
    case True
    let ?f = "\<lambda>l. if marker l then new else l"
    let ?ls = "if marker (lines ! iline) then lines[iline := new] else lines"
    have "replace_marked marker new iline lines = replace_marked marker new (Suc iline) ?ls"
      using True by (subst replace_marked.simps) simp
    also have "\<dots> = take (Suc iline) ?ls @ map ?f (drop (Suc iline) ?ls)"
      using 1[OF True] by simp
    also have "\<dots> = take iline lines @ map ?f (drop iline lines)"
      using True by (simp add: take_Suc_conv_app_nth Cons_nth_drop_Suc[symmetric])
    finally show ?thesis .
  qed
qed

lemma replace_marked_map:
  "replace_marked marker new 0 ls = map (\<lambda>l. if marker l then new else l) ls"
  by (simp add: replace_marked_from)



lemma list_index_some: "list_ex marker ls \<Longrightarrow> \<exists>i. list_index (map marker ls) True = Inr i"
  by (induction ls) auto




lemmas monad_defs = and_then_def lift_def done_with_def emit_def error_def info_def exit_def
  chdir_def read_lines_def write_lines_def write_text_def try_finally_def

lemma normalize_fixed: "normalize_version s = Inr v \<Longrightarrow> v = s"
  by (auto simp: normalize_version_def format_parse split: option.splits)


lemma startswith_iff: "startswith s p \<longleftrightarrow> (\<exists>b. s = p @ b)"
  by (induction s p rule: startswith.induct) auto

lemma str_in_iff: "str_in sub s \<longleftrightarrow> (\<exists>a b. s = a @ sub @ b)"
proof (induction s)
  case Nil then show ?case by auto
next
  case (Cons c cs)
  show ?case
  proof
    assume "str_in sub (c # cs)"
    then consider "startswith (c # cs) sub" | "str_in sub cs" by auto
    then show "\<exists>a b. c # cs = a @ sub @ b"
    proof cases
      case 1
      then obtain b where "c # cs = sub @ b" using startswith_iff by blast
      then have "c # cs = [] @ sub @ b" by simp
      then show ?thesis by blast
    next
      case 2
      with Cons obtain a b where "cs = a @ sub @ b" by blast
      then have "c # cs = (c # a) @ sub @ b" by simp
      then show ?thesis by blast
    qed
  next
    assume "\<exists>a b. c # cs = a @ sub @ b"
    then obtain a b where ab: "c # cs = a @ sub @ b" by blast
    show "str_in sub (c # cs)"
    proof (cases a)
      case Nil
      with ab have "startswith (c # cs) sub" using startswith_iff by auto
      then show ?thesis by simp
    next
      case (Cons x xs)
      with ab have "cs = xs @ sub @ b" by simp
      with Cons.IH have "str_in sub cs" by blast
      then show ?thesis by simp
    qed
  qed
qed












lemma normalized_not_Nil: "normalize_version s = Inr v \<Longrightarrow> v \<noteq> []"
  by (auto simp: normalize_version_def format_version_def show_nat_not_Nil split: option.splits)


section \<open>What the metadata writers do on a well-formed input\<close>

lemma paths_distinct:
  "init_path e \<noteq> test_version_path e" "init_path e \<noteq> package_json_path e"
  "test_version_path e \<noteq> package_json_path e"
  by (simp_all add: init_path_def test_version_path_def package_json_path_def
      DASH_BOOTSTRAP_DIR_def path_join_def)

lemma set_pyversion_ok:
  assumes "normalize_version version = Inr v" and "files w (init_path e) = Some C"
    and "list_index (map py_marker (readlines C)) True = Inr i"
  shows "set_pyversion e version w =
           (Inr (), w\<lparr>files := (files w)(init_path e \<mapsto> concat ((readlines C)[i := VERSION_TEMPLATE v]),
                                         test_version_path e \<mapsto> TEST_VERSION_TEMPLATE v)\<rparr>)"
  using assms by (simp add: set_pyversion_def monad_defs)

lemma set_jsversion_ok:
  assumes "normalize_version version = Inr v" and "files w (package_json_path e) = Some C"
  shows "set_jsversion e version w =
           (Inr (), w\<lparr>files := (files w)(package_json_path e \<mapsto>
              concat (map (\<lambda>l. if js_marker l then js_line v else l) (readlines C)))\<rparr>)"
  using assms by (simp add: set_jsversion_def monad_defs replace_marked_map)

lemma set_documentation_version_ok:
  assumes "normalize_version version = Inr v" and "files w (docs_requirements_path e) = Some C"
  shows "set_documentation_version e version w =
           (Inr (), w\<lparr>files := (files w)(docs_requirements_path e \<mapsto>
              concat (map (\<lambda>l. if docs_marker l then docs_line v else l) (readlines C)))\<rparr>)"
  using assms by (simp add: set_documentation_version_def monad_defs replace_marked_map)


lemma get_release_notes_unfold:
  assumes "normalize_version version = Inr v"
  shows "fst (get_release_notes e version w) =
     (let ncl = non_commented (readlines (editor e (initial_message v)))
      in if str_in v (concat ncl)
         then (case last_item ncl of
                 Inl err \<Rightarrow> Inl err
               | Inr final \<Rightarrow> if \<not> isspace final then Inr (Some (ncl @ [[NL]])) else Inr (Some ncl))
         else Inr None)"
  using assms
  by (simp add: get_release_notes_def open_editor_def monad_defs Let_def split: sum.splits)

lemma show_nat_free: "\<not> is_digit c \<Longrightarrow> c \<notin> set (show_nat n)"
  using show_nat_digits[of n] by (auto simp: list_all_iff)

lemma not_digit_seps: "\<not> is_digit (CHR ''.'')" "\<not> is_digit (CHR ''-'')" "\<not> is_digit (CHR ''+'')"
  by (simp_all add: is_digit_def)

lemma split_core:
  "split_on (CHR ''.'') (show_nat a @ CHR ''.'' # show_nat b @ CHR ''.'' # show_nat c)
     = [show_nat a, show_nat b, show_nat c]"
  by (simp add: split_on_present split_on_absent show_nat_free not_digit_seps)

lemma dev_tag: "valid_tag prerelease_identifier (Some ''dev'')"
  by code_simp

lemma parse_dev:
  "parse_version_info (show_nat a @ ''.'' @ show_nat b @ ''.'' @ show_nat c @ ''-dev'')
     = Some \<lparr>major = a, minor = b, patch = c, prerelease = Some ''dev'', build = None\<rparr>"
proof -
  let ?core = "show_nat a @ CHR ''.'' # show_nat b @ CHR ''.'' # show_nat c"
  let ?s = "?core @ CHR ''-'' # ''dev''"
  have "CHR ''+'' \<notin> set ?s" by (simp add: show_nat_free not_digit_seps)
  then have 1: "split_first (CHR ''+'') ?s = (?s, None)" by (rule split_first_absent)
  have "CHR ''-'' \<notin> set ?core" by (simp add: show_nat_free not_digit_seps)
  then have 2: "split_first (CHR ''-'') ?s = (?core, Some ''dev'')" by (rule split_first_present)
  have 3: "split_on (CHR ''.'') ?core = [show_nat a, show_nat b, show_nat c]" by (rule split_core)
  have "parse_version_info ?s
     = Some \<lparr>major = a, minor = b, patch = c, prerelease = Some ''dev'', build = None\<rparr>"
    by (simp only: parse_version_info_def 1 2 3 prod.case list.case numeric_show_nat
        read_show_nat dev_tag) (simp add: valid_tag_def)
  then show ?thesis by simp
qed

lemma seq_Cons_ok: "m w = (Inr (), w') \<Longrightarrow> seq (m # ms) w = seq ms w'"
  by (simp add: and_then_def)

lemma bump_dev_normal:
  assumes "bump_patch version = Inr bumped"
  shows "normalize_version (bumped @ ''-dev'') = Inr (bumped @ ''-dev'')"
proof -
  from assms obtain v where "parse_version_info version = Some v"
    and b: "bumped = show_nat (major v) @ ''.'' @ show_nat (minor v) @ ''.'' @ show_nat (patch v + 1)"
    by (auto simp: bump_patch_def format_version_def split: option.splits)
  show ?thesis unfolding b normalize_version_def
    using parse_dev[of "major v" "minor v" "patch v + 1"]
    by (simp add: format_version_def)
qed

lemma seq_frame:
  assumes "\<And>m w. m \<in> set ms \<Longrightarrow> files (snd (m w)) p = files w p"
  shows "files (snd (seq ms w)) p = files w p"
  using assms
proof (induction ms arbitrary: w)
  case Nil then show ?case by (simp add: done_with_def)
next
  case (Cons m ms)
  have m: "files (snd (m w)) p = files w p" using Cons.prems by simp
  show ?case
  proof (cases "m w")
    case (Pair r w')
    with m have w': "files w' p = files w p" by simp
    show ?thesis
    proof (cases r)
      case (Inl err)
      with Pair w' show ?thesis by (simp add: and_then_def)
    next
      case (Inr u)
      have "files (snd (seq ms w')) p = files w' p" using Cons.IH Cons.prems by simp
      with Inr Pair w' show ?thesis by (simp add: and_then_def)
    qed
  qed
qed

lemma run_frame:
  assumes "\<And>command w. snd (shell e command w) p = files w p"
  shows "files (snd (run e command w)) p = files w p"
proof (cases "shell e command w")
  case (Pair result fs)
  with assms[of command w] show ?thesis
    by (simp add: run_def invoke_run_def monad_defs)
qed

lemma check_prerequisites_ok:
  "list_all (which e) xs \<Longrightarrow> check_prerequisites_from e xs w = (Inr (), w)"
  by (induction xs) (simp_all add: done_with_def)

section \<open>The claims\<close>



text \<open>
  Claim C2, as amended. When \<open>build_js\<close> finishes, by returning or by the \<open>SystemExit\<close> of a
  failed npm command, the working directory is \<open>HERE\<close>, the directory of the tasks file,
  whatever directory the process was in when \<open>build_js\<close> started.
\<close>

theorem build_js_ends_in_HERE: "cwd (snd (build_js e w)) = HERE e"
  by (simp add: build_js_def monad_defs split: prod.splits sum.splits)

theorem build_js_ends_in_HERE_witness:
  "cwd (snd (build_js env_failing world1)) = HERE env_failing"
  using build_js_ends_in_HERE[of env_failing world1] .

text \<open>
  Claim C2, as stated, fails: started in \<open>/repo/docs\<close> with the tasks file in \<open>/repo\<close>,
  \<open>build_js\<close> does not end in the directory it started in.
\<close>

theorem build_js_original_cwd_counterexample:
  "cwd (snd (build_js env0 world1)) \<noteq> cwd world1"
  by (simp add: build_js_def monad_defs run_def invoke_run_def env0_def world1_def JS_DIR_def)

text \<open>
  Claim C3. For a malformed version string \<open>normalize_version\<close> fails with
  \<open>InvalidVersionError\<close>, and each of the three writers fails with it too and leaves the
  world, so every file, as it was.
\<close>

theorem malformed_version_writes_nothing:
  "parse_version_info s = None \<Longrightarrow>
   normalize_version s = Inl InvalidVersionError
   \<and> set_pyversion e s w = (Inl InvalidVersionError, w)
   \<and> set_jsversion e s w = (Inl InvalidVersionError, w)
   \<and> set_documentation_version e s w = (Inl InvalidVersionError, w)"
  by (simp add: normalize_version_def set_pyversion_def set_jsversion_def
      set_documentation_version_def and_then_def lift_def)

theorem malformed_version_writes_nothing_witness:
  "parse_version_info ''1.2'' = None
   \<and> normalize_version ''1.2'' = Inl InvalidVersionError
   \<and> set_pyversion env0 ''1.2'' world1 = (Inl InvalidVersionError, world1)
   \<and> set_jsversion env0 ''1.2'' world1 = (Inl InvalidVersionError, world1)
   \<and> set_documentation_version env0 ''1.2'' world1 = (Inl InvalidVersionError, world1)"
proof -
  have h: "parse_version_info ''1.2'' = None" by code_simp
  from malformed_version_writes_nothing[OF h, of env0 world1] h show ?thesis by simp
qed

text \<open>
  Claim C4. When the normalised version does not occur in the concatenation of the
  non-comment lines the editor left, \<open>get_release_notes\<close> returns \<open>None\<close>.
\<close>

theorem get_release_notes_none_without_version:
  assumes "normalize_version version = Inr v"
    and "\<nexists>a b. concat (non_commented (readlines (editor e (initial_message v)))) = a @ v @ b"
  shows "fst (get_release_notes e version w) = Inr None"
  using assms(2) by (simp add: get_release_notes_unfold[OF assms(1)] str_in_iff Let_def)

theorem get_release_notes_none_without_version_witness:
  "normalize_version ''1.2.0'' = Inr ''1.2.0''
   \<and> (\<nexists>a b. concat (non_commented (readlines (editor env_failing (initial_message ''1.2.0''))))
               = a @ ''1.2.0'' @ b)
   \<and> fst (get_release_notes env_failing ''1.2.0'' world1) = Inr None"
proof -
  have h: "normalize_version ''1.2.0'' = Inr ''1.2.0''" by code_simp
  have n: "\<nexists>a b. concat (non_commented (readlines (editor env_failing (initial_message ''1.2.0''))))
                  = a @ ''1.2.0'' @ b"
    by (simp add: env_failing_def non_commented_def)
  from get_release_notes_none_without_version[OF h n, of world1] h n show ?thesis by blast
qed

text \<open>
  Claim C5. When the normalised version does occur in the non-comment content,
  \<open>get_release_notes\<close> returns the non-comment lines, with a line holding only a newline
  appended when the last of them is not whitespace: no returned line starts with \<open>#\<close>, and
  the final line is whitespace.
\<close>

theorem get_release_notes_some_with_version:
  assumes "normalize_version version = Inr v"
    and "\<exists>a b. concat (non_commented (readlines (editor e (initial_message v)))) = a @ v @ b"
  shows "\<exists>notes. fst (get_release_notes e version w) = Inr (Some notes)
           \<and> notes = (let kept = non_commented (readlines (editor e (initial_message v)))
                       in if isspace (last kept) then kept else kept @ [[NL]])
           \<and> list_all (\<lambda>line. \<not> startswith line ''#'') notes
           \<and> notes \<noteq> [] \<and> isspace (last notes)"
proof -
  let ?ncl = "non_commented (readlines (editor e (initial_message v)))"
  from assms(2) have sub: "str_in v (concat ?ncl)" by (simp add: str_in_iff)
  from assms(2) normalized_not_Nil[OF assms(1)] have ne: "?ncl \<noteq> []" by auto
  have nc: "list_all (\<lambda>line. \<not> startswith line ''#'') ?ncl"
    by (simp add: non_commented_def list_all_iff)
  have sp: "isspace [NL]" by (simp add: isspace_def is_whitespace_def NL_def)
  have nl: "\<not> startswith [NL] ''#''" by (simp add: NL_def)
  show ?thesis
  proof (cases "isspace (last ?ncl)")
    case True
    with sub ne nc show ?thesis
      by (simp add: get_release_notes_unfold[OF assms(1)] Let_def last_item_def)
  next
    case False
    with sub ne nc sp nl show ?thesis
      by (simp add: get_release_notes_unfold[OF assms(1)] Let_def last_item_def)
  qed
qed

theorem get_release_notes_some_with_version_witness:
  "normalize_version ''1.2.0'' = Inr ''1.2.0''
   \<and> (\<exists>a b. concat (non_commented (readlines (editor env0 (initial_message ''1.2.0''))))
               = a @ ''1.2.0'' @ b)
   \<and> (\<exists>notes. fst (get_release_notes env0 ''1.2.0'' world1) = Inr (Some notes)
           \<and> notes = (let kept = non_commented (readlines (editor env0 (initial_message ''1.2.0'')))
                       in if isspace (last kept) then kept else kept @ [[NL]])
           \<and> list_all (\<lambda>line. \<not> startswith line ''#'') notes
           \<and> notes \<noteq> [] \<and> isspace (last notes))"
proof -
  have h: "normalize_version ''1.2.0'' = Inr ''1.2.0''" by code_simp
  have "str_in ''1.2.0'' (concat (non_commented (readlines (editor env0 (initial_message ''1.2.0'')))))"
    by code_simp
  then have n: "\<exists>a b. concat (non_commented (readlines (editor env0 (initial_message ''1.2.0''))))
                  = a @ ''1.2.0'' @ b"
    by (simp add: str_in_iff)
  from get_release_notes_some_with_version[OF h n, of world1] h n show ?thesis by blast
qed



text \<open>
  Claim C7. Normalisation is idempotent: when a version string normalises to \<open>v\<close>, then
  \<open>v\<close> normalises to \<open>v\<close>.
\<close>

theorem normalize_version_idempotent:
  "normalize_version s = Inr v \<Longrightarrow> normalize_version v = Inr v"
  using normalize_fixed by blast

theorem normalize_version_idempotent_witness:
  "normalize_version ''1.2.0-rc1+b7'' = Inr ''1.2.0-rc1+b7''
   \<and> normalize_version ''1.2.0-rc1+b7'' = Inr ''1.2.0-rc1+b7''"
proof -
  have h: "normalize_version ''1.2.0-rc1+b7'' = Inr ''1.2.0-rc1+b7''" by code_simp
  from normalize_version_idempotent[OF h] h show ?thesis by simp
qed

text \<open>
  Claim C8. For a valid released version, \<open>postrelease\<close> computes the bumped version with
  \<open>-dev\<close> appended and writes that string into both manifests: the first
  \<open>__version__\<close> line of \<open>__init__.py\<close> and every \<open>"version"\<close> line of \<open>package.json\<close> are the
  rendered lines for it, whether the source-control commands that follow succeed or
  not, as long as those commands leave the two files alone.
\<close>

theorem postrelease_writes_next_dev_version:
  assumes "parse_version_info version = Some v"
    and "files w (init_path e) = Some Cp" and "list_ex py_marker (readlines Cp)"
    and "files w (package_json_path e) = Some Cj"
    and "\<And>command w'. snd (shell e command w') (init_path e) = files w' (init_path e)"
    and "\<And>command w'. snd (shell e command w') (package_json_path e) = files w' (package_json_path e)"
  shows "\<exists>bumped i. bump_patch version = Inr bumped
           \<and> bumped = format_version (v\<lparr>patch := patch v + 1, prerelease := None, build := None\<rparr>)
           \<and> list_index (map py_marker (readlines Cp)) True = Inr i
           \<and> files (snd (postrelease e version w)) (init_path e)
               = Some (concat ((readlines Cp)[i := VERSION_TEMPLATE (bumped @ ''-dev'')]))
           \<and> files (snd (postrelease e version w)) (package_json_path e)
               = Some (concat (map (\<lambda>line. if js_marker line then js_line (bumped @ ''-dev'') else line)
                                 (readlines Cj)))"
proof -
  define bumped where "bumped = format_version (v\<lparr>patch := patch v + 1, prerelease := None, build := None\<rparr>)"
  define nv where "nv = bumped @ ''-dev''"
  have b: "bump_patch version = Inr bumped" using assms(1) by (simp add: bump_patch_def bumped_def)
  have n: "normalize_version nv = Inr nv" unfolding nv_def using b by (rule bump_dev_normal)
  from list_index_some[OF assms(3)] obtain i where
    i: "list_index (map py_marker (readlines Cp)) True = Inr i" by blast
  define w1 where "w1 = w\<lparr>trace := trace w @ [Print (''Bumping version numbers to '' @ nv @ '' and committing'')]\<rparr>"
  define w2 where "w2 = w1\<lparr>files := (files w1)(init_path e \<mapsto> concat ((readlines Cp)[i := VERSION_TEMPLATE nv]),
                                         test_version_path e \<mapsto> TEST_VERSION_TEMPLATE nv)\<rparr>"
  define w3 where "w3 = w2\<lparr>files := (files w2)(package_json_path e \<mapsto>
              concat (map (\<lambda>l. if js_marker l then js_line nv else l) (readlines Cj)))\<rparr>"
  define git where "git = [run e (''git checkout -b postrelease-'' @ version),
               run e (''git add package.json package-lock.json ''
                      @ ''dash_bootstrap_components/_version.py''),
               run e (''git commit -m '' @ [DQ] @ ''Back to dev'' @ [DQ]),
               run e (''git push origin postrelease-'' @ version)]"
  have f1: "files w1 (init_path e) = Some Cp" using assms(2) by (simp add: w1_def)
  have py: "set_pyversion e nv w1 = (Inr (), w2)"
    unfolding w2_def using n f1 i by (rule set_pyversion_ok)
  have f2: "files w2 (package_json_path e) = Some Cj"
    using assms(4) paths_distinct[of e] by (simp add: w2_def w1_def)
  have js: "set_jsversion e nv w2 = (Inr (), w3)"
    unfolding w3_def using n f2 by (rule set_jsversion_ok)
  have "postrelease e version w =
          seq (info (''Bumping version numbers to '' @ nv @ '' and committing'')
               # set_pyversion e nv # set_jsversion e nv # git) w"
    using b by (simp add: postrelease_def and_then_def lift_def Let_def nv_def git_def)
  also have "\<dots> = seq (set_pyversion e nv # set_jsversion e nv # git) w1"
    by (rule seq_Cons_ok) (simp add: info_def emit_def w1_def)
  also have "\<dots> = seq (set_jsversion e nv # git) w2"
    using py by (rule seq_Cons_ok)
  also have "\<dots> = seq git w3"
    using js by (rule seq_Cons_ok)
  finally have post: "postrelease e version w = seq git w3" .
  have frame: "files (snd (seq git w3)) p = files w3 p"
    if "\<And>command w'. snd (shell e command w') p = files w' p" for p
    by (rule seq_frame) (auto simp: git_def intro: run_frame that)
  have "files (snd (postrelease e version w)) (init_path e)
      = Some (concat ((readlines Cp)[i := VERSION_TEMPLATE nv]))"
    using frame[OF assms(5)] paths_distinct[of e] by (simp add: post w3_def w2_def)
  moreover have "files (snd (postrelease e version w)) (package_json_path e)
      = Some (concat (map (\<lambda>l. if js_marker l then js_line nv else l) (readlines Cj)))"
    using frame[OF assms(6)] by (simp add: post w3_def)
  ultimately show ?thesis using b i unfolding nv_def bumped_def by blast
qed

text \<open>
  \<open>postrelease\<close> of \<open>1.2.0\<close> on the small project tree: both manifests show \<open>1.2.1-dev\<close>.
\<close>

theorem postrelease_writes_next_dev_version_witness:
  "files (snd (postrelease env0 ''1.2.0'' world1)) (init_path env0)
     = Some (''__version__ = '' @ [DQ] @ ''1.2.1-dev'' @ [DQ, NL] @ ''x = 1'' @ [NL])
   \<and> files (snd (postrelease env0 ''1.2.0'' world1)) (package_json_path env0)
     = Some (''{'' @ [NL] @ ''  '' @ [DQ] @ ''version'' @ [DQ] @ '': '' @ [DQ] @ ''1.2.1-dev''
             @ [DQ] @ '','' @ [NL] @ ''}'')"
proof -
  have h1: "parse_version_info ''1.2.0''
      = Some \<lparr>major = 1, minor = 2, patch = 0, prerelease = None, build = None\<rparr>"
    by code_simp
  have h2: "files world1 (init_path env0) = Some init0" by code_simp
  have h3: "list_ex py_marker (readlines init0)" by code_simp
  have h4: "files world1 (package_json_path env0) = Some package_json0" by code_simp
  have h5: "\<And>command w'. snd (shell env0 command w') (init_path env0) = files w' (init_path env0)"
    by (simp add: env0_def)
  have h6: "\<And>command w'. snd (shell env0 command w') (package_json_path env0)
      = files w' (package_json_path env0)"
    by (simp add: env0_def)
  from postrelease_writes_next_dev_version[OF h1 h2 h3 h4 h5 h6] obtain bumped i where
    r: "bump_patch ''1.2.0'' = Inr bumped"
       "list_index (map py_marker (readlines init0)) True = Inr i"
       "files (snd (postrelease env0 ''1.2.0'' world1)) (init_path env0)
          = Some (concat ((readlines init0)[i := VERSION_TEMPLATE (bumped @ ''-dev'')]))"
       "files (snd (postrelease env0 ''1.2.0'' world1)) (package_json_path env0)
          = Some (concat (map (\<lambda>line. if js_marker line then js_line (bumped @ ''-dev'') else line)
                            (readlines package_json0)))"
    by blast
  have b: "bump_patch ''1.2.0'' = Inr ''1.2.1''" by code_simp
  have i0: "list_index (map py_marker (readlines init0)) True = Inr 0" by code_simp
  from r(1) b have bumped: "bumped = ''1.2.1''" by simp
  from r(2) i0 have i: "i = 0" by simp
  have c1: "concat ((readlines init0)[0 := VERSION_TEMPLATE (''1.2.1'' @ ''-dev'')])
      = ''__version__ = '' @ [DQ] @ ''1.2.1-dev'' @ [DQ, NL] @ ''x = 1'' @ [NL]"
    by code_simp
  have c2: "concat (map (\<lambda>line. if js_marker line then js_line (''1.2.1'' @ ''-dev'') else line)
                      (readlines package_json0))
      = ''{'' @ [NL] @ ''  '' @ [DQ] @ ''version'' @ [DQ] @ '': '' @ [DQ] @ ''1.2.1-dev''
             @ [DQ] @ '','' @ [NL] @ ''}''"
    by code_simp
  from r(3,4) show ?thesis unfolding bumped i c1 c2 by simp
qed



text \<open>
  Claim C10. When the prerequisites are found, the version is valid, the documentation
  pin file is there and the notes step returns \<open>None\<close>, \<open>release\<close> ends with the
  \<open>SystemExit\<close> of a bare \<open>exit()\<close>, whose status is 0, and the trace ends with the error
  message: after the editing session nothing is run, no external command at all.
\<close>

theorem release_without_notes_exits_zero:
  assumes "list_all (which e) [''twine'', ''npm'', ''dash-generate-components'']"
    and "normalize_version version = Inr v"
    and "files w (docs_requirements_path e) = Some C"
    and "\<not> str_in v (concat (non_commented (readlines (editor e (initial_message v)))))"
  shows "fst (release e version w) = Inl (SystemExit None)
         \<and> exit_status None = 0
         \<and> trace (snd (release e version w)) =
             trace w @ [Print (''Releasing version '' @ version @ '' as full release''),
                        Edit (initial_message v),
                        PrintColored ''No release notes: exiting'' ''red'']"
proof -
  have cp: "check_prerequisites e w = (Inr (), w)"
    unfolding check_prerequisites_def using assms(1) by (rule check_prerequisites_ok)
  define w1 where "w1 = w\<lparr>trace := trace w @ [Print (''Releasing version '' @ version @ '' as full release'')]\<rparr>"
  define w2 where "w2 = w1\<lparr>files := (files w1)(docs_requirements_path e \<mapsto>
              concat (map (\<lambda>l. if docs_marker l then docs_line v else l) (readlines C)))\<rparr>"
  have f1: "files w1 (docs_requirements_path e) = Some C" using assms(3) by (simp add: w1_def)
  have d: "set_documentation_version e version w1 = (Inr (), w2)"
    unfolding w2_def using assms(2) f1 by (rule set_documentation_version_ok)
  have none: "get_release_notes e version w2
      = (Inr None, w2\<lparr>trace := trace w2 @ [Edit (initial_message v)]\<rparr>)"
    using assms(2,4) by (simp add: get_release_notes_def open_editor_def monad_defs Let_def)
  have "seq [check_prerequisites e,
             info (''Releasing version '' @ version @ '' as full release''),
             set_documentation_version e version] w
        = seq [info (''Releasing version '' @ version @ '' as full release''),
               set_documentation_version e version] w"
    using cp by (rule seq_Cons_ok)
  also have "\<dots> = seq [set_documentation_version e version] w1"
    by (rule seq_Cons_ok) (simp add: info_def emit_def w1_def)
  also have "\<dots> = seq [] w2"
    using d by (rule seq_Cons_ok)
  finally have steps: "seq [check_prerequisites e,
             info (''Releasing version '' @ version @ '' as full release''),
             set_documentation_version e version] w = (Inr (), w2)"
    by (simp add: done_with_def)
  have "release e version w =
          (Inl (SystemExit None),
           w2\<lparr>trace := trace w2 @ [Edit (initial_message v),
                                   PrintColored ''No release notes: exiting'' ''red'']\<rparr>)"
    unfolding release_def and_then_def steps
    by (simp add: none and_then_def error_def emit_def exit_def)
  then show ?thesis by (simp add: w2_def w1_def)
qed

theorem release_without_notes_exits_zero_witness:
  "fst (release env_failing ''1.2.0'' world1) = Inl (SystemExit None)
   \<and> exit_status None = 0
   \<and> trace (snd (release env_failing ''1.2.0'' world1)) =
       [Print ''Releasing version 1.2.0 as full release'',
        Edit (initial_message ''1.2.0''),
        PrintColored ''No release notes: exiting'' ''red'']"
proof -
  have h1: "list_all (which env_failing) [''twine'', ''npm'', ''dash-generate-components'']"
    by (simp add: env_failing_def)
  have h2: "normalize_version ''1.2.0'' = Inr ''1.2.0''" by code_simp
  have h3: "files world1 (docs_requirements_path env_failing) = Some requirements0" by code_simp
  have h4: "\<not> str_in ''1.2.0''
      (concat (non_commented (readlines (editor env_failing (initial_message ''1.2.0'')))))"
    by (simp add: env_failing_def non_commented_def)
  from release_without_notes_exits_zero[OF h1 h2 h3 h4]
  show ?thesis by (simp add: world1_def)
qed

end
